theory Spec2Isabelle
  imports Main "HOL-Library.Word"
begin

unbundle bit_operations_syntax

section \<open>Bytes, errors and the Python built-ins used by addresses.py\<close>

text \<open>
  A Python \<open>bytes\<close> object is a list of 8-bit words. A Python \<open>str\<close> is a
  \<open>string\<close>, one character for each code point, all of them below 256 (the network
  names, the prompts and the addresses are ASCII). Every exception the modelled code
  can raise is a value of \<open>py_error\<close>, returned on the left of a sum; \<open>KeyRejected\<close>
  stands for the error of the elliptic-curve library on a private key it refuses.
\<close>

type_synonym byte = "8 word"
type_synonym bytes = "byte list"

datatype py_error = ValueError | UnicodeEncodeError | OverflowError | KeyRejected

text \<open>\<open>bytes.hex()\<close>: two lower-case hexadecimal digits per byte.\<close>

definition hex_digit :: "nat \<Rightarrow> char" where
  "hex_digit n = ''0123456789abcdef'' ! (n mod 16)"

definition hex :: "bytes \<Rightarrow> string" where
  "hex bs = concat (map (\<lambda>b. [hex_digit (unat b div 16), hex_digit (unat b mod 16)]) bs)"

text \<open>
  \<open>bytes.fromhex(s)\<close>: ASCII whitespace between byte pairs is skipped, each byte is
  two hexadecimal digits of either case, anything else raises ValueError.
\<close>

definition is_ascii_space :: "char \<Rightarrow> bool" where
  "is_ascii_space c = (c \<in> set [CHR '' '', CHR 0x09, CHR 0x0A, CHR 0x0B, CHR 0x0C, CHR 0x0D])"

definition hex_value :: "char \<Rightarrow> nat option" where
  "hex_value c =
     (let n = of_char c :: nat in
      if 48 \<le> n \<and> n \<le> 57 then Some (n - 48)
      else if 97 \<le> n \<and> n \<le> 102 then Some (n - 87)
      else if 65 \<le> n \<and> n \<le> 70 then Some (n - 55)
      else None)"

fun fromhex :: "string \<Rightarrow> py_error + bytes" where
  "fromhex [] = Inr []"
| "fromhex [c] = (if is_ascii_space c then Inr [] else Inl ValueError)"
| "fromhex (c # d # cs) =
     (if is_ascii_space c then fromhex (d # cs)
      else (case (hex_value c, hex_value d) of
              (Some h, Some l) \<Rightarrow>
                (case fromhex cs of
                   Inl e \<Rightarrow> Inl e
                 | Inr bs \<Rightarrow> Inr (of_nat (16 * h + l) # bs))
            | _ \<Rightarrow> Inl ValueError))"

text \<open>\<open>int.from_bytes(b, byteorder="big")\<close>, unsigned and signed (two's complement).\<close>

definition from_bytes_big :: "bytes \<Rightarrow> nat" where
  "from_bytes_big bs = foldl (\<lambda>acc b. acc * 256 + unat b) 0 bs"

definition from_bytes_big_signed :: "bytes \<Rightarrow> int" where
  "from_bytes_big_signed bs =
     (case bs of
        [] \<Rightarrow> 0
      | b # _ \<Rightarrow> if 128 \<le> unat b then int (from_bytes_big bs) - 2 ^ (8 * length bs)
                 else int (from_bytes_big bs))"

section \<open>privkey_to_pubkey: the compression step\<close>

text \<open>
  Lines 12 to 18 of addresses.py, applied to the 64 raw bytes that the elliptic-curve
  library returns for the verifying key (\<open>to_string()\<close>): x is the first 32 bytes,
  y the rest, each read through a hex round trip; the prefix is 02 when the signed
  big-endian value of y is even and 03 otherwise.
\<close>

definition compress_pubkey :: "bytes \<Rightarrow> py_error + bytes" where
  "compress_pubkey raw =
     (case fromhex (hex raw) of
        Inl e \<Rightarrow> Inl e
      | Inr xy \<Rightarrow>
          (let x_cor = take 32 xy;
               y_cor = drop 32 xy
           in if from_bytes_big_signed y_cor mod 2 = 0
              then Inr ([0x02] @ x_cor)
              else Inr ([0x03] @ x_cor)))"

text \<open>
  The whole function. The elliptic-curve library (\<open>ecdsa\<close>) is outside the repository:
  \<open>verifying_key\<close> stands for \<open>SigningKey.from_string(privkey, curve=SECP256k1)\<close>
  followed by \<open>get_verifying_key().to_string()\<close>, which raises on a rejected key.
\<close>

definition privkey_to_pubkey :: "(bytes \<Rightarrow> py_error + bytes) \<Rightarrow> bytes \<Rightarrow> py_error + bytes" where
  "privkey_to_pubkey verifying_key privkey =
     (case verifying_key privkey of
        Inl e \<Rightarrow> Inl e
      | Inr raw \<Rightarrow> compress_pubkey raw)"

text \<open>
  \<open>int.to_bytes(length, "big")\<close> of a non-negative integer (OverflowError when it does
  not fit) and \<open>int.bit_length()\<close>.
\<close>

fun be_bytes :: "nat \<Rightarrow> nat \<Rightarrow> bytes" where
  "be_bytes 0 n = []"
| "be_bytes (Suc k) n = be_bytes k (n div 256) @ [of_nat n]"

definition to_bytes_big :: "nat \<Rightarrow> nat \<Rightarrow> py_error + bytes" where
  "to_bytes_big n len = (if n < 256 ^ len then Inr (be_bytes len n) else Inl OverflowError)"

function bit_length :: "nat \<Rightarrow> nat" where
  "bit_length n = (if n = 0 then 0 else Suc (bit_length (n div 2)))"
  by pat_completeness auto
termination
  by (relation "measure id") auto

declare bit_length.simps [simp del]

text \<open>
  \<open>str.rstrip()\<close> removes trailing white space (the code points below 256 for which
  \<open>str.isspace\<close> holds); \<open>bytes.rstrip()\<close> removes trailing ASCII white space.
\<close>

definition is_str_space :: "char \<Rightarrow> bool" where
  "is_str_space c =
     (let n = of_char c :: nat
      in (9 \<le> n \<and> n \<le> 13) \<or> (28 \<le> n \<and> n \<le> 32) \<or> n = 133 \<or> n = 160)"

definition rstrip :: "string \<Rightarrow> string" where
  "rstrip s = rev (dropWhile is_str_space (rev s))"

definition rstrip_ascii :: "string \<Rightarrow> string" where
  "rstrip_ascii s = rev (dropWhile is_ascii_space (rev s))"

section \<open>The base58 package\<close>

text \<open>
  \<open>base58.b58encode\<close> and \<open>base58.b58decode\<close> of the base58 package (release 2.1),
  which addresses.py imports, with the Bitcoin alphabet. The package works on ASCII
  bytes; the model writes them as characters, so that the \<open>.decode()\<close> of
  \<open>encode_base58_checksum\<close> is the identity.
\<close>

definition BITCOIN_ALPHABET :: string where
  "BITCOIN_ALPHABET = ''123456789ABCDEFGHJKLMNPQRSTUVWXYZabcdefghijkmnopqrstuvwxyz''"

text \<open>The loop of \<open>b58encode_int\<close>: \<open>while i: i, idx = divmod(i, base); ...\<close> with base 58.\<close>

function b58encode_loop :: "nat \<Rightarrow> string \<Rightarrow> string" where
  "b58encode_loop i string =
     (if i \<noteq> 0 then b58encode_loop (i div 58) (BITCOIN_ALPHABET ! (i mod 58) # string)
      else string)"
  by pat_completeness auto
termination
  by (relation "measure fst") auto

declare b58encode_loop.simps [simp del]

definition b58encode_int :: "nat \<Rightarrow> bool \<Rightarrow> string" where
  "b58encode_int i default_one =
     (if i = 0 \<and> default_one then take 1 BITCOIN_ALPHABET else b58encode_loop i [])"

definition b58encode :: "bytes \<Rightarrow> string" where
  "b58encode v =
     (let origlen = length v;
          v' = dropWhile (\<lambda>b. b = 0) v;
          newlen = length v';
          acc = from_bytes_big v';
          result = b58encode_int acc False
      in concat (replicate (origlen - newlen) (take 1 BITCOIN_ALPHABET)) @ result)"

text \<open>\<open>scrub_input\<close> on a \<open>str\<close>: \<open>v.encode('ascii')\<close>.\<close>

definition scrub_input :: "string \<Rightarrow> py_error + string" where
  "scrub_input v = (if list_all (\<lambda>c. (of_char c :: nat) < 128) v then Inr v else Inl UnicodeEncodeError)"

text \<open>The decode map \<open>{char: index for index, char in enumerate(alphabet)}\<close>.\<close>

definition b58_decode_map :: "char \<Rightarrow> nat option" where
  "b58_decode_map = map_of (zip BITCOIN_ALPHABET [0 ..< length BITCOIN_ALPHABET])"

text \<open>The loop of \<open>b58decode_int\<close>; a character outside the alphabet raises ValueError.\<close>

fun b58decode_loop :: "nat \<Rightarrow> string \<Rightarrow> py_error + nat" where
  "b58decode_loop decimal [] = Inr decimal"
| "b58decode_loop decimal (c # cs) =
     (case b58_decode_map c of
        None \<Rightarrow> Inl ValueError
      | Some d \<Rightarrow> b58decode_loop (decimal * 58 + d) cs)"

definition b58decode_int :: "string \<Rightarrow> py_error + nat" where
  "b58decode_int v = b58decode_loop 0 (rstrip_ascii v)"

definition b58decode :: "string \<Rightarrow> py_error + bytes" where
  "b58decode v0 =
     (case scrub_input (rstrip v0) of
        Inl e \<Rightarrow> Inl e
      | Inr v \<Rightarrow>
          (let origlen = length v;
               v' = dropWhile (\<lambda>c. c \<in> set (take 1 BITCOIN_ALPHABET)) v;
               newlen = length v'
           in case b58decode_int v' of
                Inl e \<Rightarrow> Inl e
              | Inr acc \<Rightarrow> to_bytes_big acc (origlen - newlen + (bit_length acc + 7) div 8)))"

section \<open>SHA-256 and RIPEMD-160\<close>

text \<open>
  \<open>hashlib.sha256\<close> and \<open>hashlib.new('ripemd160')\<close> are library primitives. They are
  modelled as the published algorithms (FIPS 180-4; Dobbertin, Bosselaers and Preneel)
  on 32-bit words, so that the address of a concrete key can be computed.
\<close>

type_synonym w32 = "32 word"

definition rotr :: "nat \<Rightarrow> w32 \<Rightarrow> w32" where
  "rotr n x = drop_bit n x OR push_bit (32 - n) x"

definition rotl :: "nat \<Rightarrow> w32 \<Rightarrow> w32" where
  "rotl n x = push_bit n x OR drop_bit (32 - n) x"

definition ch :: "w32 \<Rightarrow> w32 \<Rightarrow> w32 \<Rightarrow> w32" where
  "ch x y z = (x AND y) XOR (NOT x AND z)"

definition maj :: "w32 \<Rightarrow> w32 \<Rightarrow> w32 \<Rightarrow> w32" where
  "maj x y z = (x AND y) XOR (x AND z) XOR (y AND z)"

definition bsig0 :: "w32 \<Rightarrow> w32" where
  "bsig0 x = rotr 2 x XOR rotr 13 x XOR rotr 22 x"

definition bsig1 :: "w32 \<Rightarrow> w32" where
  "bsig1 x = rotr 6 x XOR rotr 11 x XOR rotr 25 x"

definition ssig0 :: "w32 \<Rightarrow> w32" where
  "ssig0 x = rotr 7 x XOR rotr 18 x XOR drop_bit 3 x"

definition ssig1 :: "w32 \<Rightarrow> w32" where
  "ssig1 x = rotr 17 x XOR rotr 19 x XOR drop_bit 10 x"

definition sha256_k :: "w32 list" where
  "sha256_k =
    [0x428A2F98, 0x71374491, 0xB5C0FBCF, 0xE9B5DBA5, 0x3956C25B, 0x59F111F1, 0x923F82A4, 0xAB1C5ED5,
     0xD807AA98, 0x12835B01, 0x243185BE, 0x550C7DC3, 0x72BE5D74, 0x80DEB1FE, 0x9BDC06A7, 0xC19BF174,
     0xE49B69C1, 0xEFBE4786, 0x0FC19DC6, 0x240CA1CC, 0x2DE92C6F, 0x4A7484AA, 0x5CB0A9DC, 0x76F988DA,
     0x983E5152, 0xA831C66D, 0xB00327C8, 0xBF597FC7, 0xC6E00BF3, 0xD5A79147, 0x06CA6351, 0x14292967,
     0x27B70A85, 0x2E1B2138, 0x4D2C6DFC, 0x53380D13, 0x650A7354, 0x766A0ABB, 0x81C2C92E, 0x92722C85,
     0xA2BFE8A1, 0xA81A664B, 0xC24B8B70, 0xC76C51A3, 0xD192E819, 0xD6990624, 0xF40E3585, 0x106AA070,
     0x19A4C116, 0x1E376C08, 0x2748774C, 0x34B0BCB5, 0x391C0CB3, 0x4ED8AA4A, 0x5B9CCA4F, 0x682E6FF3,
     0x748F82EE, 0x78A5636F, 0x84C87814, 0x8CC70208, 0x90BEFFFA, 0xA4506CEB, 0xBEF9A3F7, 0xC67178F2]"

type_synonym sha_state = "w32 \<times> w32 \<times> w32 \<times> w32 \<times> w32 \<times> w32 \<times> w32 \<times> w32"

definition sha256_init :: sha_state where
  "sha256_init =
    (0x6A09E667, 0xBB67AE85, 0x3C6EF372, 0xA54FF53A, 0x510E527F, 0x9B05688C, 0x1F83D9AB, 0x5BE0CD19)"

text \<open>The message schedule is kept as a window of the last 16 words.\<close>

definition next_window :: "w32 list \<Rightarrow> w32 list" where
  "next_window ws = tl ws @ [ssig1 (ws ! 14) + ws ! 9 + ssig0 (ws ! 1) + ws ! 0]"

fun sha_shift :: "w32 \<Rightarrow> w32 \<Rightarrow> sha_state \<Rightarrow> sha_state" where
  "sha_shift t1 t2 (a, b, c, d, e, f, g, h) = (t1 + t2, a, b, c, d + t1, e, f, g)"

fun sha_round :: "w32 \<Rightarrow> w32 \<Rightarrow> sha_state \<Rightarrow> sha_state" where
  "sha_round k w (a, b, c, d, e, f, g, h) =
     sha_shift (h + bsig1 e + ch e f g + k + w) (bsig0 a + maj a b c) (a, b, c, d, e, f, g, h)"

fun sha_rounds :: "w32 list \<Rightarrow> w32 list \<Rightarrow> sha_state \<Rightarrow> sha_state" where
  "sha_rounds [] ws s = s"
| "sha_rounds (k # ks) ws s = sha_rounds ks (next_window ws) (sha_round k (ws ! 0) s)"

fun sha_add :: "sha_state \<Rightarrow> sha_state \<Rightarrow> sha_state" where
  "sha_add (a, b, c, d, e, f, g, h) (a', b', c', d', e', f', g', h') =
     (a + a', b + b', c + c', d + d', e + e', f + f', g + g', h + h')"

definition be32 :: "byte \<Rightarrow> byte \<Rightarrow> byte \<Rightarrow> byte \<Rightarrow> w32" where
  "be32 a b c d = push_bit 24 (ucast a) OR push_bit 16 (ucast b) OR push_bit 8 (ucast c) OR ucast d"

fun be_words :: "bytes \<Rightarrow> w32 list" where
  "be_words (a # b # c # d # rest) = be32 a b c d # be_words rest"
| "be_words rest = []"

definition sha_compress :: "sha_state \<Rightarrow> bytes \<Rightarrow> sha_state" where
  "sha_compress s block = sha_add s (sha_rounds sha256_k (be_words block) s)"

function sha_blocks :: "sha_state \<Rightarrow> bytes \<Rightarrow> sha_state" where
  "sha_blocks s m =
     (if length m < 64 then s else sha_blocks (sha_compress s (take 64 m)) (drop 64 m))"
  by pat_completeness auto
termination
  by (relation "measure (\<lambda>(s, m). length m)") auto

declare sha_blocks.simps [simp del]

definition be32_bytes :: "w32 \<Rightarrow> bytes" where
  "be32_bytes x = [ucast (drop_bit 24 x), ucast (drop_bit 16 x), ucast (drop_bit 8 x), ucast x]"

definition be64_bytes :: "64 word \<Rightarrow> bytes" where
  "be64_bytes x =
     [ucast (drop_bit 56 x), ucast (drop_bit 48 x), ucast (drop_bit 40 x), ucast (drop_bit 32 x),
      ucast (drop_bit 24 x), ucast (drop_bit 16 x), ucast (drop_bit 8 x), ucast x]"

text \<open>Padding: the byte 80, zero bytes up to 56 modulo 64, the bit length on 8 bytes.\<close>

definition pad_zeros :: "nat \<Rightarrow> nat" where
  "pad_zeros len = (119 - len mod 64) mod 64"

definition sha_pad :: "bytes \<Rightarrow> bytes" where
  "sha_pad m = m @ [0x80] @ replicate (pad_zeros (length m)) 0 @ be64_bytes (of_nat (8 * length m))"

fun sha_digest :: "sha_state \<Rightarrow> bytes" where
  "sha_digest (a, b, c, d, e, f, g, h) =
     be32_bytes a @ be32_bytes b @ be32_bytes c @ be32_bytes d @
     be32_bytes e @ be32_bytes f @ be32_bytes g @ be32_bytes h"

definition sha256 :: "bytes \<Rightarrow> bytes" where
  "sha256 m = sha_digest (sha_blocks sha256_init (sha_pad m))"

subsection \<open>RIPEMD-160\<close>

definition rmd_f :: "nat \<Rightarrow> w32 \<Rightarrow> w32 \<Rightarrow> w32 \<Rightarrow> w32" where
  "rmd_f j x y z =
     (if j < 16 then x XOR y XOR z
      else if j < 32 then (x AND y) OR (NOT x AND z)
      else if j < 48 then (x OR NOT y) XOR z
      else if j < 64 then (x AND z) OR (y AND NOT z)
      else x XOR (y OR NOT z))"

definition rmd_k_left :: "nat \<Rightarrow> w32" where
  "rmd_k_left j =
     (if j < 16 then 0 else if j < 32 then 0x5A827999 else if j < 48 then 0x6ED9EBA1
      else if j < 64 then 0x8F1BBCDC else 0xA953FD4E)"

definition rmd_k_right :: "nat \<Rightarrow> w32" where
  "rmd_k_right j =
     (if j < 16 then 0x50A28BE6 else if j < 32 then 0x5C4DD124 else if j < 48 then 0x6D703EF3
      else if j < 64 then 0x7A6D76E9 else 0)"

text \<open>
  The 80 steps of each line: the index of the message word that the step reads and the
  amount of its left rotation.
\<close>

definition rmd_steps_left :: "(nat \<times> nat) list" where
  "rmd_steps_left =
    [
     (0, 11), (1, 14), (2, 15), (3, 12), (4, 5), (5, 8), (6, 7), (7, 9),
     (8, 11), (9, 13), (10, 14), (11, 15), (12, 6), (13, 7), (14, 9), (15, 8),
     (7, 7), (4, 6), (13, 8), (1, 13), (10, 11), (6, 9), (15, 7), (3, 15),
     (12, 7), (0, 12), (9, 15), (5, 9), (2, 11), (14, 7), (11, 13), (8, 12),
     (3, 11), (10, 13), (14, 6), (4, 7), (9, 14), (15, 9), (8, 13), (1, 15),
     (2, 14), (7, 8), (0, 13), (6, 6), (13, 5), (11, 12), (5, 7), (12, 5),
     (1, 11), (9, 12), (11, 14), (10, 15), (0, 14), (8, 15), (12, 9), (4, 8),
     (13, 9), (3, 14), (7, 5), (15, 6), (14, 8), (5, 6), (6, 5), (2, 12),
     (4, 9), (0, 15), (5, 5), (9, 11), (7, 6), (12, 8), (2, 13), (10, 12),
     (14, 5), (1, 12), (3, 13), (8, 14), (11, 11), (6, 8), (15, 5), (13, 6)]"

definition rmd_steps_right :: "(nat \<times> nat) list" where
  "rmd_steps_right =
    [
     (5, 8), (14, 9), (7, 9), (0, 11), (9, 13), (2, 15), (11, 15), (4, 5),
     (13, 7), (6, 7), (15, 8), (8, 11), (1, 14), (10, 14), (3, 12), (12, 6),
     (6, 9), (11, 13), (3, 15), (7, 7), (0, 12), (13, 8), (5, 9), (10, 11),
     (14, 7), (15, 7), (8, 12), (12, 7), (4, 6), (9, 15), (1, 13), (2, 11),
     (15, 9), (5, 7), (1, 15), (3, 11), (7, 8), (14, 6), (6, 6), (9, 14),
     (11, 12), (8, 13), (12, 5), (2, 14), (10, 13), (0, 13), (4, 7), (13, 5),
     (8, 15), (6, 5), (4, 8), (1, 11), (3, 14), (11, 14), (15, 6), (0, 14),
     (5, 6), (12, 9), (2, 12), (13, 9), (9, 12), (7, 5), (10, 15), (14, 8),
     (12, 8), (15, 5), (10, 12), (4, 9), (1, 12), (5, 5), (8, 14), (7, 6),
     (6, 8), (2, 13), (13, 6), (14, 5), (0, 15), (3, 13), (9, 11), (11, 11)]"

type_synonym rmd_state = "w32 \<times> w32 \<times> w32 \<times> w32 \<times> w32"

fun rmd_step :: "w32 \<Rightarrow> nat \<Rightarrow> rmd_state \<Rightarrow> rmd_state" where
  "rmd_step t sh (a, b, c, d, e) = (e, rotl sh (a + t) + e, b, rotl 10 c, d)"

fun rmd_line_left :: "nat \<Rightarrow> (nat \<times> nat) list \<Rightarrow> w32 list \<Rightarrow> rmd_state \<Rightarrow> rmd_state" where
  "rmd_line_left j [] x s = s"
| "rmd_line_left j ((r, sh) # rest) x (a, b, c, d, e) =
     rmd_line_left (Suc j) rest x
       (rmd_step (rmd_f j b c d + x ! r + rmd_k_left j) sh (a, b, c, d, e))"

fun rmd_line_right :: "nat \<Rightarrow> (nat \<times> nat) list \<Rightarrow> w32 list \<Rightarrow> rmd_state \<Rightarrow> rmd_state" where
  "rmd_line_right j [] x s = s"
| "rmd_line_right j ((r, sh) # rest) x (a, b, c, d, e) =
     rmd_line_right (Suc j) rest x
       (rmd_step (rmd_f (79 - j) b c d + x ! r + rmd_k_right j) sh (a, b, c, d, e))"

fun rmd_combine :: "rmd_state \<Rightarrow> rmd_state \<Rightarrow> rmd_state \<Rightarrow> rmd_state" where
  "rmd_combine (h0, h1, h2, h3, h4) (a, b, c, d, e) (a', b', c', d', e') =
     (h1 + c + d', h2 + d + e', h3 + e + a', h4 + a + b', h0 + b + c')"

definition le32 :: "byte \<Rightarrow> byte \<Rightarrow> byte \<Rightarrow> byte \<Rightarrow> w32" where
  "le32 a b c d = be32 d c b a"

fun le_words :: "bytes \<Rightarrow> w32 list" where
  "le_words (a # b # c # d # rest) = le32 a b c d # le_words rest"
| "le_words rest = []"

definition rmd_compress :: "rmd_state \<Rightarrow> bytes \<Rightarrow> rmd_state" where
  "rmd_compress h block =
     rmd_combine h (rmd_line_left 0 rmd_steps_left (le_words block) h)
                   (rmd_line_right 0 rmd_steps_right (le_words block) h)"

function rmd_blocks :: "rmd_state \<Rightarrow> bytes \<Rightarrow> rmd_state" where
  "rmd_blocks h m =
     (if length m < 64 then h else rmd_blocks (rmd_compress h (take 64 m)) (drop 64 m))"
  by pat_completeness auto
termination
  by (relation "measure (\<lambda>(h, m). length m)") auto

declare rmd_blocks.simps [simp del]

definition rmd_pad :: "bytes \<Rightarrow> bytes" where
  "rmd_pad m =
     m @ [0x80] @ replicate (pad_zeros (length m)) 0 @ rev (be64_bytes (of_nat (8 * length m)))"

definition rmd_init :: rmd_state where
  "rmd_init = (0x67452301, 0xEFCDAB89, 0x98BADCFE, 0x10325476, 0xC3D2E1F0)"

fun rmd_digest :: "rmd_state \<Rightarrow> bytes" where
  "rmd_digest (a, b, c, d, e) =
     rev (be32_bytes a) @ rev (be32_bytes b) @ rev (be32_bytes c) @ rev (be32_bytes d) @
     rev (be32_bytes e)"

definition ripemd160 :: "bytes \<Rightarrow> bytes" where
  "ripemd160 m = rmd_digest (rmd_blocks rmd_init (rmd_pad m))"

section \<open>functions/hashfunctions.py\<close>

text \<open>
  Modelled from the spec: \<open>hash256\<close> and \<open>hash160\<close> of functions/hashfunctions.py,
  which is not among the sources. The spec gives them as two sequential SHA-256
  passes, and as SHA-256 followed by RIPEMD-160.
\<close>

definition hash256 :: "bytes \<Rightarrow> bytes" where
  "hash256 m = sha256 (sha256 m)"

definition hash160 :: "bytes \<Rightarrow> bytes" where
  "hash160 m = ripemd160 (sha256 m)"

section \<open>addresses.py: Base58Check and the address builders\<close>

definition encode_base58_checksum :: "bytes \<Rightarrow> string" where
  "encode_base58_checksum b = b58encode (b @ take 4 (hash256 b))"

definition decode_base58 :: "string \<Rightarrow> py_error + bytes" where
  "decode_base58 s = b58decode s"

text \<open>The two prompts that the builders return in their \<open>else\<close> branch.\<close>

definition network_prompt :: string where
  "network_prompt = ''Enter the network: testnet/regtest/mainnet''"

definition network_prompt_tesnet :: string where
  "network_prompt_tesnet = ''Enter the network: tesnet/regtest/mainnet''"

definition pk_to_p2pkh :: "bytes \<Rightarrow> string \<Rightarrow> string" where
  "pk_to_p2pkh compressed network =
     (let pk_hash = hash160 compressed
      in if network = ''regtest'' \<or> network = ''testnet''
         then (let prefix = [0x6f] in encode_base58_checksum (prefix @ pk_hash))
         else if network = ''mainnet''
         then (let prefix = [0x00] in encode_base58_checksum (prefix @ pk_hash))
         else network_prompt)"

definition script_to_p2sh :: "bytes \<Rightarrow> string \<Rightarrow> string" where
  "script_to_p2sh redeemScript network =
     (let rs_hash = hash160 redeemScript
      in if network = ''regtest'' \<or> network = ''testnet''
         then (let prefix = [0xc4] in encode_base58_checksum (prefix @ rs_hash))
         else if network = ''mainnet''
         then (let prefix = [0x05] in encode_base58_checksum (prefix @ rs_hash))
         else network_prompt_tesnet)"

text \<open>
  The segwit builders. \<open>bech32.encode\<close> belongs to the bech32 package, outside the
  repository; it is the parameter \<open>bech32_encode\<close>, called with the human-readable part,
  the witness version and the witness program, and returning a string or Python's
  \<open>None\<close>. The first \<open>if\<close> of the source only binds \<open>prefix\<close> for testnet; the
  \<open>if\<close>/\<open>elif\<close>/\<open>else\<close> that follows then either rebinds it or returns the prompt.
  \<open>witness_version\<close> is the rule \<open>spk[0] - 0x50 if spk[0] else 0\<close> on the byte
  \<open>spk[0]\<close>, which exists since \<open>spk\<close> starts with two literal bytes.
\<close>

definition witness_version :: "byte \<Rightarrow> int" where
  "witness_version spk0 = (if spk0 \<noteq> 0 then uint spk0 - 0x50 else 0)"

definition pk_to_p2wpkh ::
  "(string \<Rightarrow> int \<Rightarrow> bytes \<Rightarrow> string option) \<Rightarrow> bytes \<Rightarrow> string \<Rightarrow> string option" where
  "pk_to_p2wpkh bech32_encode compressed network =
     (let pk_hash = hash160 compressed;
          spk = [0x00, 0x14] @ pk_hash;
          version = witness_version (spk ! 0);
          program = drop 2 spk;
          prefix = (if network = ''testnet'' then Some ''tb'' else None)
      in if network = ''regtest''
         then (let prefix = ''bcrt'' in bech32_encode prefix version program)
         else if network = ''mainnet''
         then (let prefix = ''bc'' in bech32_encode prefix version program)
         else Some network_prompt)"

definition script_to_p2wsh ::
  "(string \<Rightarrow> int \<Rightarrow> bytes \<Rightarrow> string option) \<Rightarrow> bytes \<Rightarrow> string \<Rightarrow> string option" where
  "script_to_p2wsh bech32_encode redeemScript network =
     (let script_hash = sha256 redeemScript;
          spk = [0x00, 0x20] @ script_hash;
          version = witness_version (spk ! 0);
          program = drop 2 spk;
          prefix = (if network = ''testnet'' then Some ''tb'' else None)
      in if network = ''regtest''
         then (let prefix = ''bcrt'' in bech32_encode prefix version program)
         else if network = ''mainnet''
         then (let prefix = ''bc'' in bech32_encode prefix version program)
         else Some network_prompt)"

definition pk_to_p2sh_p2wpkh :: "bytes \<Rightarrow> string \<Rightarrow> py_error + string" where
  "pk_to_p2sh_p2wpkh compressed network =
     (let pk_hash = hash160 compressed
      in case fromhex (''0014'' @ hex pk_hash) of
           Inl e \<Rightarrow> Inl e
         | Inr redeemScript \<Rightarrow>
             (let rs_hash = hash160 redeemScript
              in if network = ''regtest'' \<or> network = ''testnet''
                 then (let prefix = [0xc4] in Inr (encode_base58_checksum (prefix @ rs_hash)))
                 else if network = ''mainnet''
                 then (let prefix = [0x05] in Inr (encode_base58_checksum (prefix @ rs_hash)))
                 else Inr network_prompt_tesnet))"

section \<open>Lemmas on the built-ins\<close>

lemma hex_value_hex_digit: "n < 16 \<Longrightarrow> hex_value (hex_digit n) = Some n"
proof -
  assume "n < 16"
  then have "n \<in> set [0 ..< 16]" by simp
  then show ?thesis
    by (simp add: upt_rec hex_value_def hex_digit_def) (elim disjE; simp)
qed

lemma not_space_hex_digit: "n < 16 \<Longrightarrow> \<not> is_ascii_space (hex_digit n)"
proof -
  assume "n < 16"
  then have "n \<in> set [0 ..< 16]" by simp
  then show ?thesis
    by (simp add: upt_rec is_ascii_space_def hex_digit_def) (elim disjE; simp)
qed

lemma byte_of_nibbles: "(of_nat (16 * (unat b div 16) + unat b mod 16) :: byte) = b"
  by simp

lemma fromhex_hex: "fromhex (hex bs) = Inr bs"
proof (induction bs)
  case Nil
  show ?case by (simp add: hex_def)
next
  case (Cons b bs)
  have h: "unat b div 16 < 16"
    using unsigned_less [of b, where 'a = nat] by (simp add: less_mult_imp_div_less)
  have l: "unat b mod 16 < 16" by simp
  have "hex (b # bs) = hex_digit (unat b div 16) # hex_digit (unat b mod 16) # hex bs"
    by (simp add: hex_def)
  then show ?case
    using Cons.IH hex_value_hex_digit [OF h] hex_value_hex_digit [OF l]
      not_space_hex_digit [OF h] byte_of_nibbles [of b]
    by simp
qed

lemma signed_parity: "from_bytes_big_signed bs mod 2 = int (from_bytes_big bs) mod 2"
proof (cases bs)
  case Nil
  then show ?thesis by (simp add: from_bytes_big_signed_def from_bytes_big_def)
next
  case (Cons b rest)
  have "(2::int) dvd 2 ^ (8 * length bs)" using Cons by simp
  then have "(int (from_bytes_big bs) - 2 ^ (8 * length bs)) mod 2 = int (from_bytes_big bs) mod 2"
    by (metis dvd_imp_mod_0 diff_zero mod_diff_right_eq)
  then show ?thesis using Cons by (simp add: from_bytes_big_signed_def)
qed

section \<open>Lemmas on the digests and on base 58\<close>

lemma length_be32_bytes [simp]: "length (be32_bytes x) = 4"
  by (simp add: be32_bytes_def)

lemma length_sha_digest: "length (sha_digest s) = 32"
  by (induction s rule: sha_digest.induct) simp

lemma length_rmd_digest: "length (rmd_digest s) = 20"
  by (induction s rule: rmd_digest.induct) simp

lemma length_sha256: "length (sha256 m) = 32"
  by (simp add: sha256_def length_sha_digest)

lemma length_ripemd160: "length (ripemd160 m) = 20"
  by (simp add: ripemd160_def length_rmd_digest)

lemma length_hash160: "length (hash160 m) = 20"
  by (simp add: hash160_def length_ripemd160)

lemma length_hash256: "length (hash256 m) = 32"
  by (simp add: hash256_def length_sha256)

lemma length_alphabet: "length BITCOIN_ALPHABET = 58"
  by (simp add: BITCOIN_ALPHABET_def)

lemma b58encode_loop_chars: "set (b58encode_loop i s) \<subseteq> set BITCOIN_ALPHABET \<union> set s"
proof (induction i s rule: b58encode_loop.induct)
  case (1 i s)
  show ?case
  proof (cases "i = 0")
    case True
    then show ?thesis by (simp add: b58encode_loop.simps)
  next
    case False
    have "BITCOIN_ALPHABET ! (i mod 58) \<in> set BITCOIN_ALPHABET"
      by (rule nth_mem) (simp add: length_alphabet)
    with 1 False show ?thesis
      by (subst b58encode_loop.simps) auto
  qed
qed

lemma b58encode_chars: "set (b58encode v) \<subseteq> set BITCOIN_ALPHABET"
proof -
  have "set (take 1 BITCOIN_ALPHABET) \<subseteq> set BITCOIN_ALPHABET"
    by (rule set_take_subset)
  then have "set (concat (replicate n (take 1 BITCOIN_ALPHABET))) \<subseteq> set BITCOIN_ALPHABET" for n
    by (induction n) auto
  then show ?thesis
    using b58encode_loop_chars [of "from_bytes_big (dropWhile (\<lambda>b. b = 0) v)" "[]"]
    by (simp add: b58encode_def b58encode_int_def Let_def)
qed

lemma space_not_in_alphabet: "CHR '' '' \<notin> set BITCOIN_ALPHABET"
  by (simp add: BITCOIN_ALPHABET_def)

lemma prompt_not_base58: "network_prompt \<noteq> b58encode v" "network_prompt_tesnet \<noteq> b58encode v"
proof -
  have "CHR '' '' \<in> set network_prompt" "CHR '' '' \<in> set network_prompt_tesnet"
    by (simp_all add: network_prompt_def network_prompt_tesnet_def)
  then show "network_prompt \<noteq> b58encode v" "network_prompt_tesnet \<noteq> b58encode v"
    using b58encode_chars [of v] space_not_in_alphabet by auto
qed

section \<open>Lemmas on the builders\<close>

lemma fromhex_0014: "fromhex (''0014'' @ hex h) = Inr ([0x00, 0x14] @ h)"
  by (simp add: fromhex_hex hex_value_def is_ascii_space_def)

lemma pk_to_p2wpkh_cases:
  "pk_to_p2wpkh enc pk n =
     (if n = ''regtest'' then enc ''bcrt'' 0 (hash160 pk)
      else if n = ''mainnet'' then enc ''bc'' 0 (hash160 pk)
      else Some network_prompt)"
  by (simp add: pk_to_p2wpkh_def witness_version_def)

lemma script_to_p2wsh_cases:
  "script_to_p2wsh enc rs n =
     (if n = ''regtest'' then enc ''bcrt'' 0 (sha256 rs)
      else if n = ''mainnet'' then enc ''bc'' 0 (sha256 rs)
      else Some network_prompt)"
  by (simp add: script_to_p2wsh_def witness_version_def)

lemma pk_to_p2pkh_cases:
  "pk_to_p2pkh pk n =
     (if n = ''regtest'' \<or> n = ''testnet'' then encode_base58_checksum (0x6f # hash160 pk)
      else if n = ''mainnet'' then encode_base58_checksum (0x00 # hash160 pk)
      else network_prompt)"
  by (simp add: pk_to_p2pkh_def)

lemma script_to_p2sh_cases:
  "script_to_p2sh rs n =
     (if n = ''regtest'' \<or> n = ''testnet'' then encode_base58_checksum (0xc4 # hash160 rs)
      else if n = ''mainnet'' then encode_base58_checksum (0x05 # hash160 rs)
      else network_prompt_tesnet)"
  by (simp add: script_to_p2sh_def)

lemma pk_to_p2sh_p2wpkh_cases:
  "pk_to_p2sh_p2wpkh pk n =
     (if n = ''regtest'' \<or> n = ''testnet''
      then Inr (encode_base58_checksum (0xc4 # hash160 (0x00 # 0x14 # hash160 pk)))
      else if n = ''mainnet''
      then Inr (encode_base58_checksum (0x05 # hash160 (0x00 # 0x14 # hash160 pk)))
      else Inr network_prompt_tesnet)"
  unfolding pk_to_p2sh_p2wpkh_def Let_def fromhex_0014 by simp

lemma prompt_not_checksum:
  "network_prompt \<noteq> encode_base58_checksum payload"
  "network_prompt_tesnet \<noteq> encode_base58_checksum payload"
  by (simp_all add: encode_base58_checksum_def prompt_not_base58)

section \<open>Lemmas on the base 58 round trip\<close>

lemma distinct_alphabet: "distinct BITCOIN_ALPHABET"
  by (simp add: BITCOIN_ALPHABET_def)

lemma alphabet_chars_plain:
  "c \<in> set BITCOIN_ALPHABET \<Longrightarrow> \<not> is_str_space c \<and> \<not> is_ascii_space c \<and> (of_char c :: nat) < 128"
  by (simp add: BITCOIN_ALPHABET_def is_str_space_def is_ascii_space_def) (elim disjE; simp)

lemma b58_decode_map_nth: "d < 58 \<Longrightarrow> b58_decode_map (BITCOIN_ALPHABET ! d) = Some d"
  unfolding b58_decode_map_def
  using map_of_zip_nth [of BITCOIN_ALPHABET "[0 ..< length BITCOIN_ALPHABET]" d]
  by (simp add: distinct_alphabet length_alphabet)

lemma b58decode_loop_encode:
  "b58decode_loop 0 (b58encode_loop i s) = b58decode_loop i s"
proof (induction i s rule: b58encode_loop.induct)
  case (1 i s)
  show ?case
  proof (cases "i = 0")
    case True
    then show ?thesis by (simp add: b58encode_loop.simps)
  next
    case False
    have "b58decode_loop 0 (b58encode_loop i s) =
          b58decode_loop (i div 58) (BITCOIN_ALPHABET ! (i mod 58) # s)"
      using False 1 by (subst b58encode_loop.simps) simp
    also have "\<dots> = b58decode_loop (i div 58 * 58 + i mod 58) s"
      by (simp add: b58_decode_map_nth)
    finally show ?thesis by simp
  qed
qed

lemma b58encode_loop_head:
  "i \<noteq> 0 \<Longrightarrow> \<exists>d rest. b58encode_loop i s = BITCOIN_ALPHABET ! d # rest \<and> 0 < d \<and> d < 58"
proof (induction i s rule: b58encode_loop.induct)
  case (1 i s)
  show ?case
  proof (cases "i div 58 = 0")
    case True
    then have "i mod 58 = i" by (simp add: div_eq_0_iff)
    with True 1(2) have "b58encode_loop i s = BITCOIN_ALPHABET ! i # s \<and> 0 < i \<and> i < 58"
      by (subst b58encode_loop.simps, subst b58encode_loop.simps) (simp add: div_eq_0_iff)
    then show ?thesis by blast
  next
    case False
    then show ?thesis
      using 1 by (subst b58encode_loop.simps) simp
  qed
qed

lemma alphabet_nth_not_one: "0 < d \<Longrightarrow> d < 58 \<Longrightarrow> BITCOIN_ALPHABET ! d \<notin> set (take 1 BITCOIN_ALPHABET)"
proof -
  assume d: "0 < d" "d < 58"
  have "take 1 BITCOIN_ALPHABET = [BITCOIN_ALPHABET ! 0]"
    by (simp add: BITCOIN_ALPHABET_def)
  moreover have "BITCOIN_ALPHABET ! d \<noteq> BITCOIN_ALPHABET ! 0"
    using d distinct_alphabet by (simp add: nth_eq_iff_index_eq length_alphabet)
  ultimately show ?thesis by simp
qed

lemma lstrip_encoded:
  "dropWhile (\<lambda>c. c \<in> set (take 1 BITCOIN_ALPHABET))
     (concat (replicate k (take 1 BITCOIN_ALPHABET)) @ b58encode_loop n []) = b58encode_loop n []"
proof -
  have ones: "\<And>x. x \<in> set (concat (replicate k (take 1 BITCOIN_ALPHABET))) \<Longrightarrow> x \<in> set (take 1 BITCOIN_ALPHABET)"
    by auto
  have digits: "dropWhile (\<lambda>c. c \<in> set (take 1 BITCOIN_ALPHABET)) (b58encode_loop n []) = b58encode_loop n []"
  proof (cases "n = 0")
    case True
    then show ?thesis by (simp add: b58encode_loop.simps)
  next
    case False
    from b58encode_loop_head [OF False, of "[]"] obtain d rest where
      "b58encode_loop n [] = BITCOIN_ALPHABET ! d # rest" "0 < d" "d < 58" by blast
    then show ?thesis using alphabet_nth_not_one by simp
  qed
  have "dropWhile (\<lambda>c. c \<in> set (take 1 BITCOIN_ALPHABET))
      (concat (replicate k (take 1 BITCOIN_ALPHABET)) @ b58encode_loop n []) =
    dropWhile (\<lambda>c. c \<in> set (take 1 BITCOIN_ALPHABET)) (b58encode_loop n [])"
    by (rule dropWhile_append2) (rule ones)
  then show ?thesis by (rule trans) (rule digits)
qed

lemma length_ones: "length (concat (replicate k (take 1 BITCOIN_ALPHABET))) = k"
  by (induction k) (simp_all add: BITCOIN_ALPHABET_def)

lemma rstrip_plain: "(\<And>c. c \<in> set s \<Longrightarrow> \<not> is_str_space c) \<Longrightarrow> rstrip s = s"
  unfolding rstrip_def by (cases "rev s") auto

lemma rstrip_ascii_plain: "(\<And>c. c \<in> set s \<Longrightarrow> \<not> is_ascii_space c) \<Longrightarrow> rstrip_ascii s = s"
  unfolding rstrip_ascii_def by (cases "rev s") auto

lemma from_bytes_big_snoc: "from_bytes_big (v @ [b]) = from_bytes_big v * 256 + unat b"
  by (simp add: from_bytes_big_def)

lemma foldl_from_bytes:
  "foldl (\<lambda>acc b. acc * 256 + unat (b :: byte)) a v =
   a * 256 ^ length v + foldl (\<lambda>acc b. acc * 256 + unat b) 0 v"
proof (induction v arbitrary: a)
  case Nil
  show ?case by simp
next
  case (Cons b v)
  show ?case
    using Cons.IH [of "a * 256 + unat b"] Cons.IH [of "unat b"]
    by (simp add: algebra_simps)
qed

lemma from_bytes_big_Cons:
  "from_bytes_big (b # v) = unat b * 256 ^ length v + from_bytes_big v"
  using foldl_from_bytes [of "unat b" v] by (simp add: from_bytes_big_def)

lemma from_bytes_big_less: "from_bytes_big v < 256 ^ length v"
proof (induction v rule: rev_induct)
  case Nil
  show ?case by (simp add: from_bytes_big_def)
next
  case (snoc b v)
  have "unat b < 256" using unsigned_less [of b, where 'a = nat] by simp
  with snoc show ?case by (simp add: from_bytes_big_snoc)
qed

lemma be_bytes_zero: "be_bytes k 0 = replicate k 0"
  by (induction k) (simp_all add: replicate_append_same)

lemma be_bytes_from_bytes: "be_bytes (k + length v) (from_bytes_big v) = replicate k 0 @ v"
proof (induction v rule: rev_induct)
  case Nil
  show ?case by (simp add: from_bytes_big_def be_bytes_zero)
next
  case (snoc b v)
  have lt: "unat b < 256" using unsigned_less [of b, where 'a = nat] by simp
  have "unat (of_nat (from_bytes_big v * 256 + unat b) :: byte) =
        (from_bytes_big v * 256 + unat b) mod 2 ^ LENGTH(8)"
    by (rule unat_of_nat)
  also have "\<dots> = unat b" using lt by simp
  finally have "unat (of_nat (from_bytes_big v * 256 + unat b) :: byte) = unat b" .
  then have "(of_nat (from_bytes_big v * 256 + unat b) :: byte) = b"
    by (simp only: word_unat_eq_iff)
  with snoc lt show ?case by (simp add: from_bytes_big_snoc)
qed

lemma bit_length_le: "bit_length n \<le> k \<longleftrightarrow> n < 2 ^ k"
proof (induction k arbitrary: n)
  case 0
  show ?case by (subst bit_length.simps) simp
next
  case (Suc k)
  show ?case
  proof (cases "n = 0")
    case True
    then show ?thesis by (subst bit_length.simps) simp
  next
    case False
    have "bit_length n \<le> Suc k \<longleftrightarrow> bit_length (n div 2) \<le> k"
      using False by (subst bit_length.simps) simp
    also have "\<dots> \<longleftrightarrow> n div 2 < 2 ^ k" by (rule Suc.IH)
    also have "\<dots> \<longleftrightarrow> n < 2 ^ Suc k" by auto
    finally show ?thesis .
  qed
qed

lemma byte_length_from_bytes:
  assumes "v = [] \<or> hd v \<noteq> 0"
  shows "(bit_length (from_bytes_big v) + 7) div 8 = length v"
proof (cases v)
  case Nil
  then show ?thesis by (simp add: from_bytes_big_def bit_length.simps)
next
  case (Cons b rest)
  with assms have "b \<noteq> 0" by simp
  then have "1 \<le> unat b" by (simp add: unat_gt_0 Suc_leI)
  then have "256 ^ length rest \<le> unat b * 256 ^ length rest" by simp
  then have "256 ^ length rest \<le> unat b * 256 ^ length rest + from_bytes_big rest"
    by (rule trans_le_add1)
  then have lower: "(2::nat) ^ (8 * length rest) \<le> from_bytes_big v"
    using Cons by (simp add: from_bytes_big_Cons power_mult)
  have upper: "from_bytes_big v < 2 ^ (8 * length v)"
    using from_bytes_big_less [of v] by (simp add: power_mult)
  from lower have "\<not> bit_length (from_bytes_big v) \<le> 8 * length rest"
    by (simp add: bit_length_le)
  moreover from upper have "bit_length (from_bytes_big v) \<le> 8 * length v"
    by (simp add: bit_length_le)
  ultimately show ?thesis using Cons by simp
qed

lemma b58decode_b58encode: "b58decode (b58encode v) = Inr v"
proof -
  define v' where "v' = dropWhile (\<lambda>b. b = 0) v"
  define k where "k = length v - length v'"
  define n where "n = from_bytes_big v'"
  define ones where "ones = concat (replicate k (take 1 BITCOIN_ALPHABET))"
  have enc: "b58encode v = ones @ b58encode_loop n []"
    by (simp add: b58encode_def b58encode_int_def Let_def v'_def k_def n_def ones_def)
  have plain: "\<And>c. c \<in> set (b58encode v) \<Longrightarrow>
      \<not> is_str_space c \<and> \<not> is_ascii_space c \<and> (of_char c :: nat) < 128"
    using b58encode_chars [of v] alphabet_chars_plain by blast
  have scrub: "scrub_input (rstrip (b58encode v)) = Inr (b58encode v)"
    using plain by (simp add: rstrip_plain scrub_input_def list_all_iff)
  have strip: "dropWhile (\<lambda>c. c \<in> set (take 1 BITCOIN_ALPHABET)) (b58encode v) = b58encode_loop n []"
    unfolding enc ones_def by (rule lstrip_encoded)
  have "set (b58encode_loop n []) \<subseteq> set (b58encode v)" unfolding enc by simp
  then have "rstrip_ascii (b58encode_loop n []) = b58encode_loop n []"
    using plain by (intro rstrip_ascii_plain) blast
  then have dec: "b58decode_int (b58encode_loop n []) = Inr n"
    by (simp add: b58decode_int_def b58decode_loop_encode)
  have "length ones = k" unfolding ones_def by (rule length_ones)
  then have len: "length (b58encode v) - length (b58encode_loop n []) = k"
    unfolding enc by simp
  have v: "v = replicate k 0 @ v'"
  proof -
    have "takeWhile (\<lambda>b. b = 0) v = replicate (length (takeWhile (\<lambda>b. b = 0) v)) 0"
      by (metis (mono_tags, lifting) replicate_length_same set_takeWhileD)
    moreover have "length (takeWhile (\<lambda>b. b = 0) v) = k"
      unfolding k_def v'_def
      by (metis add_diff_cancel_right' length_append takeWhile_dropWhile_id)
    ultimately show ?thesis
      unfolding v'_def by (metis takeWhile_dropWhile_id)
  qed
  have head: "v' = [] \<or> hd v' \<noteq> 0"
    unfolding v'_def by (metis (mono_tags, lifting) hd_dropWhile)
  have bytes: "(bit_length n + 7) div 8 = length v'"
    unfolding n_def by (rule byte_length_from_bytes [OF head])
  have "n < 256 ^ (k + length v')"
  proof -
    have "n < 256 ^ length v'" unfolding n_def by (rule from_bytes_big_less)
    also have "(256::nat) ^ length v' \<le> 256 ^ (k + length v')" by (simp add: power_increasing)
    finally show ?thesis .
  qed
  then have "to_bytes_big n (k + length v') = Inr (replicate k 0 @ v')"
    by (simp add: to_bytes_big_def n_def be_bytes_from_bytes)
  then have "to_bytes_big n (k + (bit_length n + 7) div 8) = Inr (replicate k 0 @ v')"
    by (simp only: bytes)
  then have "b58decode (b58encode v) = Inr (replicate k 0 @ v')"
    unfolding b58decode_def scrub sum.case Let_def strip dec len .
  then show ?thesis using v by simp
qed

section \<open>The digests of the known vector\<close>

text \<open>
  The compressed generator point of secp256k1 through SHA-256 and RIPEMD-160, its
  payload through SHA-256 twice, and the payload with its checksum in base 58. Each
  digest is computed by rewriting with the defining equations.
\<close>

lemma sha256_generator_key:
  "sha256 [0x02, 0x79, 0xbe, 0x66, 0x7e, 0xf9, 0xdc, 0xbb, 0xac, 0x55, 0xa0, 0x62, 0x95, 0xce, 0x87, 0x0b, 0x07,
           0x02, 0x9b, 0xfc, 0xdb, 0x2d, 0xce, 0x28, 0xd9, 0x59, 0xf2, 0x81, 0x5b, 0x16, 0xf8, 0x17, 0x98]
   = [0x0f, 0x71, 0x5b, 0xaf, 0x5d, 0x4c, 0x2e, 0xd3, 0x29, 0x78, 0x5c, 0xef, 0x29, 0xe5, 0x62, 0xf7,
      0x34, 0x88, 0xc8, 0xa2, 0xbb, 0x9d, 0xbc, 0x57, 0x00, 0xb3, 0x61, 0xd5, 0x4b, 0x9b, 0x05, 0x54]"
  by code_simp

lemma ripemd160_generator_key:
  "ripemd160 [0x0f, 0x71, 0x5b, 0xaf, 0x5d, 0x4c, 0x2e, 0xd3, 0x29, 0x78, 0x5c, 0xef, 0x29, 0xe5, 0x62, 0xf7,
              0x34, 0x88, 0xc8, 0xa2, 0xbb, 0x9d, 0xbc, 0x57, 0x00, 0xb3, 0x61, 0xd5, 0x4b, 0x9b, 0x05, 0x54]
   = [0x75, 0x1e, 0x76, 0xe8, 0x19, 0x91, 0x96, 0xd4, 0x54, 0x94,
      0x1c, 0x45, 0xd1, 0xb3, 0xa3, 0x23, 0xf1, 0x43, 0x3b, 0xd6]"
  by code_simp

lemma sha256_generator_payload:
  "sha256 [0x00, 0x75, 0x1e, 0x76, 0xe8, 0x19, 0x91, 0x96, 0xd4, 0x54, 0x94,
           0x1c, 0x45, 0xd1, 0xb3, 0xa3, 0x23, 0xf1, 0x43, 0x3b, 0xd6]
   = [0xc5, 0xa2, 0xed, 0x70, 0xd2, 0xc0, 0x35, 0x10, 0x8c, 0x24, 0x15, 0x79, 0x21, 0x62, 0xa6, 0xda,
      0xaf, 0x21, 0xe6, 0xdc, 0x01, 0x5a, 0xce, 0x0f, 0x9a, 0x45, 0x8d, 0xd3, 0xf0, 0x1d, 0xa5, 0x98]"
  by code_simp

lemma sha256_generator_payload_twice:
  "sha256 [0xc5, 0xa2, 0xed, 0x70, 0xd2, 0xc0, 0x35, 0x10, 0x8c, 0x24, 0x15, 0x79, 0x21, 0x62, 0xa6, 0xda,
           0xaf, 0x21, 0xe6, 0xdc, 0x01, 0x5a, 0xce, 0x0f, 0x9a, 0x45, 0x8d, 0xd3, 0xf0, 0x1d, 0xa5, 0x98]
   = [0x51, 0x0d, 0x16, 0x34, 0xd9, 0x43, 0x10, 0x9b, 0x69, 0xda, 0x52, 0x7e, 0xf5, 0x94, 0x81, 0x06,
      0xf2, 0x2b, 0x65, 0x5f, 0xb5, 0x19, 0x3b, 0x4e, 0x9e, 0xf7, 0xe4, 0xdc, 0xd3, 0x42, 0xd2, 0x45]"
  by code_simp

lemma b58encode_generator_payload:
  "b58encode [0x00, 0x75, 0x1e, 0x76, 0xe8, 0x19, 0x91, 0x96, 0xd4, 0x54, 0x94,
              0x1c, 0x45, 0xd1, 0xb3, 0xa3, 0x23, 0xf1, 0x43, 0x3b, 0xd6, 0x51, 0x0d, 0x16, 0x34]
   = ''1BgGZ9tcN4rm9KBzDn7KprQz87SZ26SAMH''"
  by (simp add: b58encode_def b58encode_int_def from_bytes_big_def b58encode_loop.simps BITCOIN_ALPHABET_def)

section \<open>The claims\<close>

text \<open>
  C1. For every compressed public key and every redeem script, \<open>pk_to_p2wpkh\<close> and
  \<open>script_to_p2wsh\<close> called with the network testnet reach the \<open>else\<close> branch and
  return its prompt, whatever the bech32 encoder is: the \<open>elif\<close>/\<open>else\<close> pair belongs
  to the regtest check only. The value returned is not a bech32 address with the
  human-readable part tb, which would start with tb1.
\<close>

theorem testnet_segwit_falls_through:
  "pk_to_p2wpkh bech32_encode compressed ''testnet'' = Some network_prompt
   \<and> script_to_p2wsh bech32_encode redeemScript ''testnet'' = Some network_prompt
   \<and> (\<forall>rest. pk_to_p2wpkh bech32_encode compressed ''testnet'' \<noteq> Some (''tb1'' @ rest))
   \<and> (\<forall>rest. script_to_p2wsh bech32_encode redeemScript ''testnet'' \<noteq> Some (''tb1'' @ rest))"
  by (simp add: pk_to_p2wpkh_cases script_to_p2wsh_cases network_prompt_def)

text \<open>
  C2, as amended. For every input, a network that is none of mainnet, testnet and
  regtest makes each of the five builders return one of the two prompts of the
  \<open>else\<close> branches as its ordinary value: a plain string, \<open>Some\<close> of it for the segwit
  builders, \<open>Inr\<close> of it for \<open>pk_to_p2sh_p2wpkh\<close>, never an error. No prefix is used:
  the value is not the Base58Check encoding of any payload, and the segwit builders
  return the same value whatever the bech32 encoder does.
\<close>

theorem unknown_network_uses_no_prefix:
  assumes "network \<notin> {''mainnet'', ''testnet'', ''regtest''}"
  shows "pk_to_p2pkh pk network \<in> {network_prompt, network_prompt_tesnet}
       \<and> script_to_p2sh rs network \<in> {network_prompt, network_prompt_tesnet}
       \<and> pk_to_p2wpkh enc pk network \<in> {Some network_prompt, Some network_prompt_tesnet}
       \<and> script_to_p2wsh enc rs network \<in> {Some network_prompt, Some network_prompt_tesnet}
       \<and> pk_to_p2sh_p2wpkh pk network \<in> {Inr network_prompt, Inr network_prompt_tesnet}
       \<and> \<not> isl (pk_to_p2sh_p2wpkh pk network)
       \<and> (\<forall>payload. pk_to_p2pkh pk network \<noteq> encode_base58_checksum payload
                  \<and> script_to_p2sh rs network \<noteq> encode_base58_checksum payload
                  \<and> pk_to_p2sh_p2wpkh pk network \<noteq> Inr (encode_base58_checksum payload))
       \<and> pk_to_p2wpkh enc pk network = pk_to_p2wpkh (\<lambda>hrp version program. None) pk network
       \<and> script_to_p2wsh enc rs network = script_to_p2wsh (\<lambda>hrp version program. None) rs network"
  using assms
  by (simp add: pk_to_p2pkh_cases script_to_p2sh_cases pk_to_p2wpkh_cases script_to_p2wsh_cases
      pk_to_p2sh_p2wpkh_cases prompt_not_checksum)

theorem unknown_network_uses_no_prefix_witness:
  "''signet'' \<notin> {''mainnet'', ''testnet'', ''regtest''}
   \<and> pk_to_p2pkh [0x02] ''signet'' \<in> {network_prompt, network_prompt_tesnet}
   \<and> pk_to_p2pkh [0x02] ''signet'' \<noteq> encode_base58_checksum (0x00 # hash160 [0x02])
   \<and> pk_to_p2pkh [0x02] ''signet'' \<noteq> encode_base58_checksum (0x6f # hash160 [0x02])
   \<and> \<not> isl (pk_to_p2sh_p2wpkh [0x02] ''signet'')
   \<and> pk_to_p2wpkh (\<lambda>hrp version program. Some hrp) [0x02] ''signet''
       = pk_to_p2wpkh (\<lambda>hrp version program. None) [0x02] ''signet''"
  using unknown_network_uses_no_prefix
    [of "''signet''" "[0x02]" "[0x51]" "\<lambda>hrp version program. Some hrp"]
  by simp

text \<open>
  C2, as stated, fails: on the network signet no failure is surfaced. The builder whose
  result has an error side, \<open>pk_to_p2sh_p2wpkh\<close>, returns on the value side, and it and
  \<open>pk_to_p2pkh\<close> return their prompt as the string a successful call would return.
\<close>

theorem unknown_network_no_failure_counterexample:
  "\<not> isl (pk_to_p2sh_p2wpkh [0x02] ''signet'')
   \<and> pk_to_p2sh_p2wpkh [0x02] ''signet'' = Inr ''Enter the network: tesnet/regtest/mainnet''
   \<and> pk_to_p2pkh [0x02] ''signet'' = ''Enter the network: testnet/regtest/mainnet''"
  by (simp add: pk_to_p2sh_p2wpkh_cases pk_to_p2pkh_cases network_prompt_def
      network_prompt_tesnet_def)

text \<open>
  C3. Whenever \<open>pk_to_p2wpkh\<close> or \<open>script_to_p2wsh\<close> calls the bech32 encoder (on
  regtest and on mainnet), the witness version it passes is 0: the rule
  \<open>spk[0] - 0x50 if spk[0] else 0\<close> is applied to a sequence that starts with the literal
  byte 00.
\<close>

theorem segwit_version_is_zero:
  "pk_to_p2wpkh enc pk n =
     (if n = ''regtest'' then enc ''bcrt'' 0 (hash160 pk)
      else if n = ''mainnet'' then enc ''bc'' 0 (hash160 pk)
      else Some network_prompt)
   \<and> script_to_p2wsh enc rs n =
     (if n = ''regtest'' then enc ''bcrt'' 0 (sha256 rs)
      else if n = ''mainnet'' then enc ''bc'' 0 (sha256 rs)
      else Some network_prompt)
   \<and> witness_version (([0x00, 0x14] @ hash160 pk) ! 0) = 0
   \<and> witness_version (([0x00, 0x20] @ sha256 rs) ! 0) = 0"
  by (simp add: pk_to_p2wpkh_cases script_to_p2wsh_cases witness_version_def)

text \<open>
  C4. For every compressed public key and every network, \<open>pk_to_p2sh_p2wpkh\<close> returns
  the string that \<open>script_to_p2sh\<close> returns for the redeem script
  00 14 followed by HASH160 of the key, on the same network.
\<close>

theorem p2sh_p2wpkh_wraps_program:
  "pk_to_p2sh_p2wpkh pk network = Inr (script_to_p2sh ([0x00, 0x14] @ hash160 pk) network)"
  by (simp add: pk_to_p2sh_p2wpkh_cases script_to_p2sh_cases)

text \<open>
  C5. For every payload p, \<open>decode_base58 (encode_base58_checksum p)\<close> is p followed by
  the first four bytes of \<open>hash256 p\<close>: the checksum is still there. Decoding checks
  nothing: it gives back any byte sequence that was encoded in base 58, whether or not
  its last four bytes are a checksum.
\<close>

theorem decode_keeps_checksum:
  "decode_base58 (encode_base58_checksum p) = Inr (p @ take 4 (hash256 p))
   \<and> length (p @ take 4 (hash256 p)) = length p + 4
   \<and> decode_base58 (b58encode v) = Inr v"
  by (simp add: decode_base58_def encode_base58_checksum_def b58decode_b58encode length_hash256)

text \<open>
  C6. For every 64-byte uncompressed public key (x on 32 bytes, then y on 32 bytes) the
  compression step returns 33 bytes: the byte 02 when y, read as a big-endian integer,
  is even and 03 when it is odd, followed by the first 32 bytes of the input.
\<close>

theorem compress_pubkey_parity:
  assumes "length raw = 64"
  shows "compress_pubkey raw =
           Inr ((if even (from_bytes_big (drop 32 raw)) then 0x02 else 0x03) # take 32 raw)
         \<and> length ((if even (from_bytes_big (drop 32 raw)) then 0x02 else 0x03 :: byte) # take 32 raw) = 33"
proof -
  have "from_bytes_big_signed (drop 32 raw) mod 2 = 0 \<longleftrightarrow> even (from_bytes_big (drop 32 raw))"
    unfolding signed_parity by presburger
  then show ?thesis
    using assms by (simp add: compress_pubkey_def fromhex_hex)
qed

text \<open>The generator point of secp256k1: its y coordinate is even, the prefix is 02.\<close>

theorem compress_pubkey_parity_witness:
  "compress_pubkey
     [0x79, 0xbe, 0x66, 0x7e, 0xf9, 0xdc, 0xbb, 0xac, 0x55, 0xa0, 0x62, 0x95, 0xce, 0x87, 0x0b, 0x07,
      0x02, 0x9b, 0xfc, 0xdb, 0x2d, 0xce, 0x28, 0xd9, 0x59, 0xf2, 0x81, 0x5b, 0x16, 0xf8, 0x17, 0x98,
      0x48, 0x3a, 0xda, 0x77, 0x26, 0xa3, 0xc4, 0x65, 0x5d, 0xa4, 0xfb, 0xfc, 0x0e, 0x11, 0x08, 0xa8,
      0xfd, 0x17, 0xb4, 0x48, 0xa6, 0x85, 0x54, 0x19, 0x9c, 0x47, 0xd0, 0x8f, 0xfb, 0x10, 0xd4, 0xb8]
   = Inr [0x02,
      0x79, 0xbe, 0x66, 0x7e, 0xf9, 0xdc, 0xbb, 0xac, 0x55, 0xa0, 0x62, 0x95, 0xce, 0x87, 0x0b, 0x07,
      0x02, 0x9b, 0xfc, 0xdb, 0x2d, 0xce, 0x28, 0xd9, 0x59, 0xf2, 0x81, 0x5b, 0x16, 0xf8, 0x17, 0x98]"
  using compress_pubkey_parity [of
     "[0x79, 0xbe, 0x66, 0x7e, 0xf9, 0xdc, 0xbb, 0xac, 0x55, 0xa0, 0x62, 0x95, 0xce, 0x87, 0x0b, 0x07,
      0x02, 0x9b, 0xfc, 0xdb, 0x2d, 0xce, 0x28, 0xd9, 0x59, 0xf2, 0x81, 0x5b, 0x16, 0xf8, 0x17, 0x98,
      0x48, 0x3a, 0xda, 0x77, 0x26, 0xa3, 0xc4, 0x65, 0x5d, 0xa4, 0xfb, 0xfc, 0x0e, 0x11, 0x08, 0xa8,
      0xfd, 0x17, 0xb4, 0x48, 0xa6, 0x85, 0x54, 0x19, 0x9c, 0x47, 0xd0, 0x8f, 0xfb, 0x10, 0xd4, 0xb8]"]
  by (simp add: from_bytes_big_def)

text \<open>
  C7. On a network where the encoder is reached, \<open>script_to_p2wsh\<close> passes the single
  SHA-256 digest of the script, 32 bytes, as witness program, and \<open>pk_to_p2wpkh\<close>
  passes RIPEMD-160 of SHA-256 of the key, 20 bytes, with the same human-readable part:
  the two programs differ in algorithm and in length.
\<close>

theorem segwit_programs_differ:
  assumes "n = ''regtest'' \<or> n = ''mainnet''"
  shows "script_to_p2wsh enc rs n = enc (if n = ''regtest'' then ''bcrt'' else ''bc'') 0 (sha256 rs)
       \<and> pk_to_p2wpkh enc pk n =
           enc (if n = ''regtest'' then ''bcrt'' else ''bc'') 0 (ripemd160 (sha256 pk))
       \<and> length (sha256 rs) = 32
       \<and> length (ripemd160 (sha256 pk)) = 20
       \<and> sha256 rs \<noteq> ripemd160 (sha256 pk)"
proof -
  have "length (sha256 rs) \<noteq> length (ripemd160 (sha256 pk))"
    by (simp add: length_sha256 length_ripemd160)
  then have "sha256 rs \<noteq> ripemd160 (sha256 pk)" by auto
  then show ?thesis
    using assms
    by (auto simp add: pk_to_p2wpkh_cases script_to_p2wsh_cases hash160_def length_sha256 length_ripemd160)
qed

theorem segwit_programs_differ_witness:
  "(''mainnet'' = ''regtest'' \<or> ''mainnet'' = ''mainnet'')
   \<and> script_to_p2wsh (\<lambda>hrp version program. Some (hrp @ ''1'')) [0x51] ''mainnet'' = Some ''bc1''
   \<and> pk_to_p2wpkh (\<lambda>hrp version program. Some (hrp @ ''1'')) [0x02] ''mainnet'' = Some ''bc1''
   \<and> length (sha256 [0x51]) = 32
   \<and> length (ripemd160 (sha256 [0x02])) = 20"
  using segwit_programs_differ [of "''mainnet''" "\<lambda>hrp version program. Some (hrp @ ''1'')" "[0x51]" "[0x02]"]
  by simp

text \<open>
  C8. For every payload b, \<open>encode_base58_checksum b\<close> is the base 58 encoding of b
  followed by the first four bytes of \<open>hash256 b\<close>, where \<open>hash256\<close> is SHA-256 applied
  twice; the checksum has exactly four bytes.
\<close>

theorem encode_base58_checksum_spec:
  "encode_base58_checksum b = b58encode (b @ take 4 (hash256 b))
   \<and> hash256 b = sha256 (sha256 b)
   \<and> length (take 4 (hash256 b)) = 4
   \<and> length (b @ take 4 (hash256 b)) = length b + 4"
  by (simp add: encode_base58_checksum_def hash256_def length_sha256)

text \<open>
  C9. For the compressed public key 02 followed by
  79be667ef9dcbbac55a06295ce870b07029bfcdb2dce28d959f2815b16f81798 and the network
  mainnet, \<open>pk_to_p2pkh\<close> returns the address 1BgGZ9tcN4rm9KBzDn7KprQz87SZ26SAMH.
\<close>

theorem p2pkh_known_vector:
  "pk_to_p2pkh [0x02, 0x79, 0xbe, 0x66, 0x7e, 0xf9, 0xdc, 0xbb, 0xac, 0x55, 0xa0, 0x62, 0x95, 0xce, 0x87, 0x0b, 0x07,
                0x02, 0x9b, 0xfc, 0xdb, 0x2d, 0xce, 0x28, 0xd9, 0x59, 0xf2, 0x81, 0x5b, 0x16, 0xf8, 0x17, 0x98]
     ''mainnet''
   = ''1BgGZ9tcN4rm9KBzDn7KprQz87SZ26SAMH''"
  by (simp add: pk_to_p2pkh_cases hash160_def sha256_generator_key ripemd160_generator_key
      encode_base58_checksum_def hash256_def sha256_generator_payload
      sha256_generator_payload_twice b58encode_generator_payload)

text \<open>
  C10. For a network that is none of mainnet, testnet and regtest, every builder returns
  its prompt as an ordinary value: the plain string (with the spelling tesnet in
  \<open>script_to_p2sh\<close> and \<open>pk_to_p2sh_p2wpkh\<close>), in the same place as the address
  string of a successful call, and no exception is raised.
\<close>

theorem unknown_network_returns_prompt:
  assumes "network \<notin> {''mainnet'', ''testnet'', ''regtest''}"
  shows "pk_to_p2pkh pk network = ''Enter the network: testnet/regtest/mainnet''
       \<and> script_to_p2sh rs network = ''Enter the network: tesnet/regtest/mainnet''
       \<and> pk_to_p2wpkh enc pk network = Some ''Enter the network: testnet/regtest/mainnet''
       \<and> script_to_p2wsh enc rs network = Some ''Enter the network: testnet/regtest/mainnet''
       \<and> pk_to_p2sh_p2wpkh pk network = Inr ''Enter the network: tesnet/regtest/mainnet''
       \<and> pk_to_p2sh_p2wpkh pk ''mainnet'' = Inr (encode_base58_checksum (0x05 # hash160 ([0x00, 0x14] @ hash160 pk)))"
  using assms
  by (simp add: pk_to_p2pkh_cases script_to_p2sh_cases pk_to_p2wpkh_cases script_to_p2wsh_cases
      pk_to_p2sh_p2wpkh_cases network_prompt_def network_prompt_tesnet_def)

theorem unknown_network_returns_prompt_witness:
  "''signet'' \<notin> {''mainnet'', ''testnet'', ''regtest''}
   \<and> pk_to_p2pkh [0x02] ''signet'' = ''Enter the network: testnet/regtest/mainnet''
   \<and> script_to_p2sh [0x51] ''signet'' = ''Enter the network: tesnet/regtest/mainnet''
   \<and> pk_to_p2wpkh (\<lambda>hrp version program. None) [0x02] ''signet'' = Some ''Enter the network: testnet/regtest/mainnet''
   \<and> script_to_p2wsh (\<lambda>hrp version program. None) [0x51] ''signet'' = Some ''Enter the network: testnet/regtest/mainnet''
   \<and> pk_to_p2sh_p2wpkh [0x02] ''signet'' = Inr ''Enter the network: tesnet/regtest/mainnet''"
  using unknown_network_returns_prompt [of "''signet''" "[0x02]" "[0x51]" "\<lambda>hrp version program. None"]
  by simp

end
